theory Spec2Isabelle
  imports Complex_Main "HOL-Library.Monad_Syntax" "HOL-Library.Word"
begin

section \<open>The screenshot route: data model\<close>

text \<open>
  The development embeds \<^verbatim>\<open>src/app/api/screenshot/route.ts\<close>: the zod schema
  \<^verbatim>\<open>screenshotSchema\<close> and the handler \<^verbatim>\<open>POST\<close>.

  A JavaScript number is modelled by the rational it denotes: every finite double is
  one, and the comparisons of the schema against its integer bounds are exact on them.
  The one arithmetic operation of the handler, \<^verbatim>\<open>validated.zoom / 100\<close>, is the
  division of doubles, which rounds (section \<open>JavaScript numbers\<close>).
\<close>

type_synonym number = rat

text \<open>What \<^verbatim>\<open>req.json()\<close> returns: a JSON value. An object is the list of its
  properties, each key once.\<close>

datatype json =
    JNull
  | JBool bool
  | JNumber number
  | JString string
  | JArray "json list"
  | JObject "(string \<times> json) list"

text \<open>A request is its body as \<^verbatim>\<open>req.json()\<close> reads it; \<open>None\<close> is a body that
  is not JSON, on which \<^verbatim>\<open>req.json()\<close> rejects.\<close>

type_synonym request = "json option"

datatype format = PNG | JPEG | PDF

text \<open>The output type of \<^verbatim>\<open>screenshotSchema\<close>, field by field (lines 5-17).\<close>

record validated =
  url :: string
  fullSize :: bool
  useProxy :: bool
  noAds :: bool
  width :: number
  height :: number
  zoom :: number
  format :: format
  quality :: number
  delay :: number
  css :: "string option"

text \<open>The network request handed to the interception listener, read through
  \<^verbatim>\<open>request.resourceType()\<close> and \<^verbatim>\<open>request.url()\<close>, and the listener's two
  answers \<^verbatim>\<open>request.abort()\<close> and \<^verbatim>\<open>request.continue()\<close>.\<close>

datatype http_request = HTTPRequest (resourceType: string) (request_url: string)

datatype interception = Abort | Continue

text \<open>
  The calls the handler makes on its collaborators, with their arguments, in the order
  of the source:
  \<^item> \<open>Launch headless\<close>: \<^verbatim>\<open>puppeteer.launch({ headless })\<close>;
  \<^item> \<open>NewPage\<close>: \<^verbatim>\<open>browser.newPage()\<close>;
  \<^item> \<open>SetViewport w h s\<close>: \<^verbatim>\<open>page.setViewport({ width: w, height: h, deviceScaleFactor: s })\<close>;
  \<^item> \<open>SetRequestInterception b\<close>: \<^verbatim>\<open>page.setRequestInterception(b)\<close>;
  \<^item> \<open>PageOn event listener\<close>: \<^verbatim>\<open>page.on(event, listener)\<close>;
  \<^item> \<open>Goto u w\<close>: \<^verbatim>\<open>page.goto(u, { waitUntil: w })\<close>;
  \<^item> \<open>Evaluate c\<close>: \<^verbatim>\<open>page.evaluate(f, c)\<close> with \<open>f\<close> the function of lines 63-67, which
    appends a style element with text \<open>c\<close> to the document head;
  \<^item> \<open>SetTimeout ms\<close>: the awaited \<^verbatim>\<open>setTimeout(resolve, ms)\<close>;
  \<^item> \<open>Pdf f b\<close>: \<^verbatim>\<open>page.pdf({ format: f, printBackground: b })\<close>;
  \<^item> \<open>Screenshot p t q\<close>: \<^verbatim>\<open>page.screenshot({ fullPage: p, type: t, quality: q })\<close>, with
    \<open>None\<close> for \<^verbatim>\<open>undefined\<close>;
  \<^item> \<open>Close\<close>: \<^verbatim>\<open>browser.close()\<close>.
\<close>

datatype call =
    Launch bool
  | NewPage
  | SetViewport number number number
  | SetRequestInterception bool
  | PageOn string "http_request \<Rightarrow> interception"
  | Goto string string
  | Evaluate string
  | SetTimeout number
  | Pdf string bool
  | Screenshot bool format "number option"
  | Close

text \<open>What the \<^verbatim>\<open>try\<close> block can throw: \<^verbatim>\<open>req.json()\<close> rejecting, the schema's
  \<^verbatim>\<open>parse\<close> throwing, or a call on the browser throwing.\<close>

datatype error = SyntaxError | ZodError | BrowserError call

type_synonym bytes = "8 word list"

text \<open>
  The collaborators the source imports and this repository does not define, as
  parameters:
  \<^item> \<open>isUrl\<close>: the check behind zod's \<^verbatim>\<open>z.string().url()\<close>;
  \<^item> \<open>throws c\<close>: whether the browser call \<open>c\<close> throws (or its promise rejects);
  \<^item> \<open>captured c\<close>: the bytes the capture call \<open>c\<close> resolves to;
  \<^item> \<open>base64\<close>: \<^verbatim>\<open>Buffer.prototype.toString("base64")\<close>.
  The handler issues no call twice, so a function of the call gives every behaviour of
  the browser during one request.
\<close>

record env =
  isUrl :: "string \<Rightarrow> bool"
  throws :: "call \<Rightarrow> bool"
  captured :: "call \<Rightarrow> bytes"
  base64 :: "bytes \<Rightarrow> string"

text \<open>The body and status given to \<^verbatim>\<open>NextResponse.json\<close>; an absent property of
  the body is \<open>None\<close>.\<close>

record response =
  status :: nat
  success :: bool
  screenshot :: "string option"
  error :: "string option"

text \<open>What one run of the handler leaves behind: its response, the calls it made in
  order, and what it gave to \<^verbatim>\<open>console.error\<close>.\<close>

record outcome =
  returned :: response
  calls :: "call list"
  logged :: "error option"

section \<open>JavaScript numbers\<close>

text \<open>
  The numbers of a request are the doubles that \<^verbatim>\<open>req.json()\<close> produced, each taken
  as the rational it denotes. Comparisons of doubles are exact. The division
  \<^verbatim>\<open>validated.zoom / 100\<close> of line 34 is the division of IEEE 754 binary64: the exact
  quotient rounded to the nearest double, a tie going to the double with the even
  significand.
\<close>

definition pow2 :: "int \<Rightarrow> number" where
  "pow2 k = (if 0 \<le> k then 2 ^ nat k else 1 / 2 ^ nat (- k))"

text \<open>The number of binary digits of a natural number.\<close>

fun bit_length :: "nat \<Rightarrow> nat" where
  "bit_length n = (if n = 0 then 0 else Suc (bit_length (n div 2)))"

declare bit_length.simps [simp del]

text \<open>For \<open>q > 0\<close>, the integer \<open>e\<close> with \<open>2 ^ e \<le> q < 2 ^ (e + 1)\<close>: from the digits of the
  integer part when \<open>q \<ge> 1\<close>, from those of the reciprocal rounded up otherwise.\<close>

definition floor_log2 :: "number \<Rightarrow> int" where
  "floor_log2 q =
     (if 1 \<le> q then int (bit_length (nat \<lfloor>q\<rfloor>)) - 1
      else - int (bit_length (nat (\<lceil>1 / q\<rceil> - 1))))"

text \<open>The nearest integer to \<open>x \<ge> 0\<close>, the even one of the two at a tie.\<close>

definition round_half_even :: "number \<Rightarrow> int" where
  "round_half_even x =
     (let f = \<lfloor>x\<rfloor>; r = x - of_int f
      in if r < 1 / 2 then f
         else if 1 / 2 < r then f + 1
         else if even f then f else f + 1)"

text \<open>
  Rounding to binary64. A double is \<open>m * 2 ^ k\<close> or its negative, with a significand
  \<open>m < 2 ^ 53\<close> and \<open>k \<ge> -1074\<close>, where \<open>m \<ge> 2 ^ 52\<close> unless \<open>k = -1074\<close> (the subnormal
  numbers). The exponent \<open>k\<close> of the result is fixed by the magnitude of \<open>q\<close>, and its
  significand is \<open>|q| / 2 ^ k\<close> rounded to an integer. A magnitude beyond the largest
  double would round to \<^verbatim>\<open>Infinity\<close>, which no quotient of a double by 100 reaches and
  the model leaves out.
\<close>

definition to_double :: "number \<Rightarrow> number" where
  "to_double q =
     (if q = 0 then 0
      else let k = max (floor_log2 \<bar>q\<bar> - 52) (- 1074);
               m = round_half_even (\<bar>q\<bar> / pow2 k)
           in sgn q * of_int m * pow2 k)"

text \<open>The operator \<^verbatim>\<open>/\<close> of JavaScript on two doubles, the divisor not zero.\<close>

definition js_divide :: "number \<Rightarrow> number \<Rightarrow> number" where
  "js_divide a b = to_double (a / b)"

section \<open>The schema\<close>

text \<open>
  The zod combinators the schema is built from, each on the value of one property of
  the parsed object: \<open>None\<close> as input is \<^verbatim>\<open>undefined\<close> (the key is absent), \<open>None\<close> as
  output is a validation issue. \<^verbatim>\<open>min\<close> and \<^verbatim>\<open>max\<close> are inclusive.
\<close>

definition z_string :: "json option \<Rightarrow> string option" where
  "z_string x = (case x of Some (JString s) \<Rightarrow> Some s | _ \<Rightarrow> None)"

definition z_string_url :: "(string \<Rightarrow> bool) \<Rightarrow> json option \<Rightarrow> string option" where
  "z_string_url valid x =
     (case z_string x of Some s \<Rightarrow> if valid s then Some s else None | None \<Rightarrow> None)"

definition z_boolean :: "json option \<Rightarrow> bool option" where
  "z_boolean x = (case x of Some (JBool b) \<Rightarrow> Some b | _ \<Rightarrow> None)"

definition z_number_min_max :: "number \<Rightarrow> number \<Rightarrow> json option \<Rightarrow> number option" where
  "z_number_min_max lo hi x =
     (case x of
        Some (JNumber n) \<Rightarrow> if lo \<le> n \<and> n \<le> hi then Some n else None
      | _ \<Rightarrow> None)"

definition z_enum_format :: "json option \<Rightarrow> format option" where
  "z_enum_format x =
     (case z_string x of
        Some s \<Rightarrow>
          if s = ''png'' then Some PNG
          else if s = ''jpeg'' then Some JPEG
          else if s = ''pdf'' then Some PDF
          else None
      | None \<Rightarrow> None)"

definition z_default :: "(json option \<Rightarrow> 'a option) \<Rightarrow> 'a \<Rightarrow> json option \<Rightarrow> 'a option" where
  "z_default p d x = (case x of None \<Rightarrow> Some d | Some _ \<Rightarrow> p x)"

definition z_optional :: "(json option \<Rightarrow> 'a option) \<Rightarrow> json option \<Rightarrow> 'a option option" where
  "z_optional p x = (case x of None \<Rightarrow> Some None | Some _ \<Rightarrow> map_option Some (p x))"

text \<open>The object schema of lines 5-17 on the properties \<open>get\<close> of an object.\<close>

definition screenshotFields :: "(string \<Rightarrow> bool) \<Rightarrow> (string \<Rightarrow> json option) \<Rightarrow> validated option" where
  "screenshotFields valid get =
     do {
       u \<leftarrow> z_string_url valid (get ''url'');
       fs \<leftarrow> z_default z_boolean False (get ''fullSize'');
       up \<leftarrow> z_default z_boolean False (get ''useProxy'');
       na \<leftarrow> z_default z_boolean False (get ''noAds'');
       w \<leftarrow> z_number_min_max 100 3840 (get ''width'');
       h \<leftarrow> z_number_min_max 100 2160 (get ''height'');
       z \<leftarrow> z_number_min_max 10 200 (get ''zoom'');
       f \<leftarrow> z_default z_enum_format PNG (get ''format'');
       q \<leftarrow> z_default (z_number_min_max 0 100) 80 (get ''quality'');
       d \<leftarrow> z_default (z_number_min_max 0 10000) 0 (get ''delay'');
       c \<leftarrow> z_optional z_string (get ''css'');
       Some \<lparr>url = u, fullSize = fs, useProxy = up, noAds = na, width = w, height = h,
             zoom = z, format = f, quality = q, delay = d, css = c\<rparr>
     }"

text \<open>\<^verbatim>\<open>screenshotSchema.parse(data)\<close>: \<^verbatim>\<open>z.object\<close> takes an object only and
  ignores the keys it does not know; a failure is the thrown \<^verbatim>\<open>ZodError\<close>.\<close>

definition screenshotSchema :: "(string \<Rightarrow> bool) \<Rightarrow> json \<Rightarrow> error + validated" where
  "screenshotSchema valid data =
     (case data of
        JObject props \<Rightarrow>
          (case screenshotFields valid (map_of props) of
             Some v \<Rightarrow> Inr v
           | None \<Rightarrow> Inl ZodError)
      | _ \<Rightarrow> Inl ZodError)"

section \<open>The interception listener\<close>

text \<open>\<^verbatim>\<open>String.prototype.includes\<close> (a keyword of Isabelle, hence the suffix): \<open>sub\<close> occurs in \<open>s\<close> as a contiguous run.\<close>

fun startsWith :: "string \<Rightarrow> string \<Rightarrow> bool" where
  "startsWith s [] = True"
| "startsWith [] (c # sub) = False"
| "startsWith (d # s) (c # sub) = (d = c \<and> startsWith s sub)"

fun includes_str :: "string \<Rightarrow> string \<Rightarrow> bool" where
  "includes_str [] sub = (sub = [])"
| "includes_str (d # s) sub = (startsWith (d # s) sub \<or> includes_str s sub)"

text \<open>The listener of lines 40-53.\<close>

definition request_listener :: "http_request \<Rightarrow> interception" where
  "request_listener request =
     (if resourceType request = ''image'' \<or>
         resourceType request = ''media'' \<or>
         resourceType request = ''script'' \<or>
         includes_str (request_url request) ''ads'' \<or>
         includes_str (request_url request) ''analytics''
      then Abort
      else Continue)"

section \<open>The handler\<close>

text \<open>A step of the \<^verbatim>\<open>try\<close> block takes the calls made so far and returns the
  calls made after it, with its value or the error it throws.\<close>

type_synonym 'a step = "call list \<Rightarrow> (error + 'a) \<times> call list"

definition done_step :: "'a \<Rightarrow> 'a step" where
  "done_step x tr = (Inr x, tr)"

definition throw_step :: "error \<Rightarrow> 'a step" where
  "throw_step e tr = (Inl e, tr)"

text \<open>Sequencing: a thrown error skips everything after it, up to the \<^verbatim>\<open>catch\<close>.\<close>

definition and_then :: "'a step \<Rightarrow> ('a \<Rightarrow> 'b step) \<Rightarrow> 'b step" where
  "and_then m f tr =
     (case m tr of
        (Inl e, tr') \<Rightarrow> (Inl e, tr')
      | (Inr x, tr') \<Rightarrow> f x tr')"

text \<open>A call on the browser library, awaited where the source awaits it: it is recorded,
  and throws when the environment
  says so.\<close>

definition perform :: "env \<Rightarrow> call \<Rightarrow> unit step" where
  "perform e c tr = (if throws e c then Inl (BrowserError c) else Inr (), tr @ [c])"

text \<open>An awaited capture call, which resolves to bytes.\<close>

definition perform_bytes :: "env \<Rightarrow> call \<Rightarrow> bytes step" where
  "perform_bytes e c tr =
     (if throws e c then Inl (BrowserError c) else Inr (captured e c), tr @ [c])"

text \<open>The awaited timer of line 72, which cannot throw.\<close>

definition sleep :: "number \<Rightarrow> unit step" where
  "sleep ms tr = (Inr (), tr @ [SetTimeout ms])"

text \<open>The name \<^verbatim>\<open>validated.format\<close> has inside the template string of line 100.\<close>

fun format_name :: "format \<Rightarrow> string" where
  "format_name PNG = ''png''"
| "format_name JPEG = ''jpeg''"
| "format_name PDF = ''pdf''"

text \<open>Truthiness of \<^verbatim>\<open>validated.css\<close> (line 62): \<^verbatim>\<open>undefined\<close> and the empty
  string are falsy.\<close>

definition truthy :: "string option \<Rightarrow> bool" where
  "truthy s = (case s of None \<Rightarrow> False | Some c \<Rightarrow> c \<noteq> [])"

text \<open>Lines 77-90: the capture step.\<close>

definition take_screenshot :: "env \<Rightarrow> validated \<Rightarrow> bytes step" where
  "take_screenshot e v =
     (if format v = PDF then perform_bytes e (Pdf ''A4'' True)
      else perform_bytes e
             (Screenshot (fullSize v) (format v)
                (if format v = JPEG then Some (quality v) else None)))"

text \<open>Line 100: the data URI.\<close>

definition data_uri :: "env \<Rightarrow> validated \<Rightarrow> bytes \<Rightarrow> string" where
  "data_uri e v screenshotData =
     ''data:'' @
     (if format v = PDF then ''application/pdf'' else ''image/'' @ format_name (format v)) @
     '';base64,'' @ base64 e screenshotData"

text \<open>Lines 24-101: the \<^verbatim>\<open>try\<close> block after validation. Its value is the
  \<^verbatim>\<open>screenshot\<close> string of the success response.\<close>

definition capture :: "env \<Rightarrow> validated \<Rightarrow> string step" where
  "capture e v =
     and_then (perform e (Launch True)) (\<lambda>_.
     and_then (perform e NewPage) (\<lambda>_.
     and_then (perform e (SetViewport (width v) (height v) (js_divide (zoom v) 100))) (\<lambda>_.
     and_then
       (if noAds v
        then and_then (perform e (SetRequestInterception True)) (\<lambda>_.
             perform e (PageOn ''request'' request_listener))
        else done_step ()) (\<lambda>_.
     and_then (perform e (Goto (url v) ''networkidle0'')) (\<lambda>_.
     and_then (if truthy (css v) then perform e (Evaluate (the (css v))) else done_step ()) (\<lambda>_.
     and_then (if delay v > 0 then sleep (delay v) else done_step ()) (\<lambda>_.
     and_then (take_screenshot e v) (\<lambda>screenshotData.
     and_then (perform e Close) (\<lambda>_.
     done_step (data_uri e v screenshotData))))))))))"

text \<open>Lines 21-22: reading and validating the body.\<close>

definition req_json :: "request \<Rightarrow> json step" where
  "req_json req = (case req of None \<Rightarrow> throw_step SyntaxError | Some data \<Rightarrow> done_step data)"

definition parse :: "env \<Rightarrow> json \<Rightarrow> validated step" where
  "parse e data =
     (case screenshotSchema (isUrl e) data of
        Inl err \<Rightarrow> throw_step err
      | Inr v \<Rightarrow> done_step v)"

definition try_block :: "env \<Rightarrow> request \<Rightarrow> string step" where
  "try_block e req =
     and_then (req_json req) (\<lambda>data.
     and_then (parse e data) (\<lambda>v.
     capture e v))"

text \<open>The two responses: line 98 (status 200 by default) and line 104.\<close>

definition success_response :: "string \<Rightarrow> response" where
  "success_response uri =
     \<lparr>status = 200, success = True, screenshot = Some uri, error = None\<rparr>"

definition failure_response :: response where
  "failure_response =
     \<lparr>status = 500, success = False, screenshot = None,
      error = Some ''Failed to capture screenshot''\<rparr>"

text \<open>The handler: the \<^verbatim>\<open>try\<close> block from no calls made, and the
  \<^verbatim>\<open>catch\<close> of lines 102-105.\<close>

definition POST :: "env \<Rightarrow> request \<Rightarrow> outcome" where
  "POST e req =
     (case try_block e req [] of
        (Inr uri, tr) \<Rightarrow>
          \<lparr>returned = success_response uri, calls = tr, logged = None\<rparr>
      | (Inl err, tr) \<Rightarrow>
          \<lparr>returned = failure_response, calls = tr, logged = Some err\<rparr>)"

section \<open>Example requests and environments\<close>

text \<open>A reference encoder for the environments below: base64 with the alphabet and
  the padding of RFC 4648, three bytes to four characters.\<close>

definition base64_alphabet :: string where
  "base64_alphabet = ''ABCDEFGHIJKLMNOPQRSTUVWXYZabcdefghijklmnopqrstuvwxyz0123456789+/''"

definition sextet :: "nat \<Rightarrow> char" where
  "sextet n = base64_alphabet ! (n mod 64)"

fun base64_rfc4648 :: "bytes \<Rightarrow> string" where
  "base64_rfc4648 [] = []"
| "base64_rfc4648 [a] =
     [sextet (unat a div 4), sextet (unat a mod 4 * 16), CHR ''='', CHR ''='']"
| "base64_rfc4648 [a, b] =
     [sextet (unat a div 4), sextet (unat a mod 4 * 16 + unat b div 16),
      sextet (unat b mod 16 * 4), CHR ''='']"
| "base64_rfc4648 (a # b # c # rest) =
     [sextet (unat a div 4), sextet (unat a mod 4 * 16 + unat b div 16),
      sextet (unat b mod 16 * 4 + unat c div 64), sextet (unat c mod 64)] @
     base64_rfc4648 rest"

text \<open>An environment in which the URL check takes \<^verbatim>\<open>https://example.com\<close> only, no
  call throws, and every capture resolves to the four bytes \<^verbatim>\<open>89 50 4E 47\<close>.\<close>

definition example_env :: env where
  "example_env =
     \<lparr>isUrl = (\<lambda>s. s = ''https://example.com''),
      throws = (\<lambda>c. False),
      captured = (\<lambda>c. [0x89, 0x50, 0x4E, 0x47]),
      base64 = base64_rfc4648\<rparr>"

text \<open>The same environment with a navigation that fails: \<^verbatim>\<open>page.goto\<close> throws.\<close>

definition goto_fails_env :: env where
  "goto_fails_env =
     example_env\<lparr>throws := (\<lambda>c. case c of Goto u w \<Rightarrow> True | _ \<Rightarrow> False)\<rparr>"

text \<open>The request of the example scenario: a 1280 by 720 PNG of
  \<^verbatim>\<open>https://example.com\<close> at zoom 100.\<close>

definition example_body :: json where
  "example_body =
     JObject
       [(''url'', JString ''https://example.com''),
        (''width'', JNumber 1280),
        (''height'', JNumber 720),
        (''zoom'', JNumber 100),
        (''format'', JString ''png''),
        (''fullSize'', JBool False),
        (''noAds'', JBool False),
        (''delay'', JNumber 0)]"

text \<open>What the schema makes of it.\<close>

definition example_validated :: validated where
  "example_validated =
     \<lparr>url = ''https://example.com'', fullSize = False, useProxy = False, noAds = False,
      width = 1280, height = 720, zoom = 100, format = PNG, quality = 80, delay = 0,
      css = None\<rparr>"

text \<open>Variants of that request: the URL, the width, the zoom and the format given,
  the height 720, and further properties \<open>rest\<close>.\<close>

definition request_body :: "json \<Rightarrow> json \<Rightarrow> number \<Rightarrow> string \<Rightarrow> (string \<times> json) list \<Rightarrow> json" where
  "request_body u w z f rest =
     JObject
       ([(''url'', u), (''width'', w), (''height'', JNumber 720), (''zoom'', JNumber z),
         (''format'', JString f)] @ rest)"

section \<open>The division of doubles\<close>

text \<open>\<open>floor_log2\<close> is the binary logarithm rounded down, so that \<open>to_double\<close> is within
  half a unit in the last place of its argument and leaves a double as it is.\<close>

lemma pow2_power_int: "pow2 k = 2 powi k"
  by (simp add: pow2_def power_int_def inverse_eq_divide power_one_over)

lemma pow2_nat: "pow2 (int n) = 2 ^ n"
  by (simp add: pow2_power_int)

lemma pow2_neg_nat: "pow2 (- int n) = 1 / 2 ^ n"
  by (simp add: pow2_power_int power_int_minus_divide)

lemma pow2_pos: "0 < pow2 k"
  by (simp add: pow2_power_int)

lemma pow2_add: "pow2 (j + k) = pow2 j * pow2 k"
  by (simp add: pow2_power_int power_int_add)

lemma pow2_mono: "j \<le> k \<Longrightarrow> pow2 j \<le> pow2 k"
  by (simp add: pow2_power_int power_int_increasing)

lemma pow2_less_cancel: "pow2 j < pow2 k \<Longrightarrow> j < k"
  using pow2_mono [of k j] by (cases "j < k") simp_all

lemma bit_length_bounds:
  "0 < n \<Longrightarrow> 2 ^ (bit_length n - 1) \<le> n \<and> n < 2 ^ bit_length n"
proof (induction n rule: bit_length.induct)
  case (1 n)
  show ?case
  proof (cases "n div 2 = 0")
    case True
    with "1.prems" have "n = Suc 0" by (simp add: div_eq_0_iff) 
    then show ?thesis
      by (simp add: bit_length.simps [of "Suc 0"] bit_length.simps [of 0])
  next
    case False
    with "1.IH" "1.prems" have ih: "2 ^ (bit_length (n div 2) - 1) \<le> n div 2"
      "n div 2 < 2 ^ bit_length (n div 2)"
      by simp_all
    from False have pos: "0 < bit_length (n div 2)"
      by (simp add: bit_length.simps [of "n div 2"])
    have bl: "bit_length n = Suc (bit_length (n div 2))"
      using "1.prems" by (simp add: bit_length.simps [of n])
    from pos obtain j where j: "bit_length (n div 2) = Suc j"
      by (cases "bit_length (n div 2)") simp_all
    from ih show ?thesis
      unfolding bl j by simp linarith
  qed
qed

lemma round_half_even_error: "\<bar>of_int (round_half_even x) - x\<bar> \<le> 1 / 2"
proof -
  have "of_int \<lfloor>x\<rfloor> \<le> x" and "x < of_int \<lfloor>x\<rfloor> + 1"
    by linarith+
  then show ?thesis
    by (auto simp: round_half_even_def Let_def abs_le_iff)
qed

lemma round_half_even_int: "round_half_even (of_int m) = m"
  by (simp add: round_half_even_def)

lemma floor_log2_bounds:
  assumes "0 < q"
  shows "pow2 (floor_log2 q) \<le> q" and "q < pow2 (floor_log2 q + 1)"
proof -
  have "pow2 (floor_log2 q) \<le> q \<and> q < pow2 (floor_log2 q + 1)"
  proof (cases "1 \<le> q")
    case True
    define n where "n = nat \<lfloor>q\<rfloor>"
    from True have n: "0 < n" and fl: "of_nat n = (of_int \<lfloor>q\<rfloor> :: rat)"
      by (simp_all add: n_def)
    from bit_length_bounds [OF n] obtain L where L: "bit_length n = Suc L"
      and lo: "2 ^ L \<le> n" and hi: "n < 2 ^ Suc L"
      by (cases "bit_length n") auto
    have e: "floor_log2 q = int L"
      using True by (simp add: floor_log2_def n_def [symmetric] L)
    from lo have "(2 :: rat) ^ L \<le> of_nat n"
      by (metis of_nat_le_iff of_nat_numeral of_nat_power)
    also have "\<dots> \<le> q" unfolding fl by linarith
    finally have 1: "pow2 (int L) \<le> q" by (simp add: pow2_nat)
    from hi have "Suc n \<le> 2 ^ Suc L" by simp
    then have "(of_nat (Suc n) :: rat) \<le> 2 ^ Suc L"
      by (metis of_nat_le_iff of_nat_numeral of_nat_power)
    moreover have "q < of_nat (Suc n)"
      using fl by simp linarith
    ultimately have 2: "q < pow2 (int L + 1)"
      using pow2_nat [of "Suc L"] by (simp add: add.commute)
    from 1 2 show ?thesis unfolding e by simp
  next
    case False
    define r where "r = 1 / q"
    define n where "n = nat (\<lceil>r\<rceil> - 1)"
    from False assms have r: "1 < r" by (simp add: r_def)
    then have c: "2 \<le> \<lceil>r\<rceil>" by linarith
    then have n: "0 < n" and cn: "(of_nat n :: rat) = of_int \<lceil>r\<rceil> - 1"
      by (simp_all add: n_def)
    from bit_length_bounds [OF n] obtain L where L: "bit_length n = Suc L"
      and lo: "2 ^ L \<le> n" and hi: "n < 2 ^ Suc L"
      by (cases "bit_length n") auto
    have e: "floor_log2 q = - int (Suc L)"
      using False by (simp add: floor_log2_def r_def [symmetric] n_def [symmetric] L)
    from hi have "Suc n \<le> 2 ^ Suc L" by simp
    then have "(of_nat (Suc n) :: rat) \<le> 2 ^ Suc L"
      by (metis of_nat_le_iff of_nat_numeral of_nat_power)
    moreover have "r \<le> of_nat (Suc n)"
      using cn by simp
    ultimately have "r \<le> 2 ^ Suc L" by linarith
    with assms have 1: "1 / 2 ^ Suc L \<le> q"
      unfolding r_def by (simp add: field_simps)
    from lo have "(2 :: rat) ^ L \<le> of_nat n"
      by (metis of_nat_le_iff of_nat_numeral of_nat_power)
    moreover have "of_nat n < r"
      unfolding cn by linarith
    ultimately have "2 ^ L < r" by linarith
    with assms have 2: "q < 1 / 2 ^ L"
      unfolding r_def by (simp add: field_simps)
    have "pow2 (- int (Suc L)) = 1 / 2 ^ Suc L"
      by (rule pow2_neg_nat)
    moreover have "pow2 (- int (Suc L) + 1) = 1 / 2 ^ L"
      using pow2_neg_nat [of L] by simp
    ultimately show ?thesis
      using 1 2 unfolding e by simp
  qed
  then show "pow2 (floor_log2 q) \<le> q" and "q < pow2 (floor_log2 q + 1)"
    by simp_all
qed

lemma floor_log2_unique:
  assumes "0 < q" and "pow2 j \<le> q" and "q < pow2 (j + 1)"
  shows "floor_log2 q = j"
proof -
  from floor_log2_bounds [OF assms(1)] assms(2,3)
  have "pow2 (floor_log2 q) < pow2 (j + 1)" and "pow2 j < pow2 (floor_log2 q + 1)"
    by linarith+
  then have "floor_log2 q < j + 1" and "j < floor_log2 q + 1"
    using pow2_less_cancel by blast+
  then show ?thesis by simp
qed

lemma to_double_error:
  assumes "q \<noteq> 0"
  shows "\<bar>to_double q - q\<bar> \<le> pow2 (max (floor_log2 \<bar>q\<bar> - 52) (- 1074)) / 2"
proof -
  define k where "k = max (floor_log2 \<bar>q\<bar> - 52) (- 1074)"
  define m where "m = round_half_even (\<bar>q\<bar> / pow2 k)"
  have td: "to_double q = sgn q * of_int m * pow2 k"
    using assms by (simp add: to_double_def Let_def k_def m_def)
  have "q = sgn q * \<bar>q\<bar>"
    by (simp add: mult.commute abs_sgn)
  then have "to_double q - q = sgn q * (of_int m * pow2 k - \<bar>q\<bar>)"
    unfolding td by (simp add: algebra_simps)
  then have "\<bar>to_double q - q\<bar> = \<bar>of_int m * pow2 k - \<bar>q\<bar>\<bar>"
    using assms by (simp add: abs_mult abs_sgn_eq)
  also have "of_int m * pow2 k - \<bar>q\<bar> = (of_int m - \<bar>q\<bar> / pow2 k) * pow2 k"
    using pow2_pos [of k] by (simp add: field_simps)
  also have "\<bar>\<dots>\<bar> = \<bar>of_int m - \<bar>q\<bar> / pow2 k\<bar> * pow2 k"
    using pow2_pos [of k] by (simp add: abs_mult)
  also have "\<dots> \<le> 1 / 2 * pow2 k"
    using round_half_even_error [of "\<bar>q\<bar> / pow2 k"] pow2_pos [of k]
    unfolding m_def by (intro mult_right_mono) simp_all
  finally show ?thesis by (simp add: k_def)
qed

lemma to_double_double:
  assumes "2 ^ 52 \<le> m" and "m < 2 ^ 53" and "- 1074 \<le> k"
  shows "to_double (of_int m * pow2 k) = of_int m * pow2 k"
proof -
  define q where "q = of_int m * pow2 k"
  from assms(1) have m: "0 < m" by (smt (verit) zero_less_power)
  with pow2_pos [of k] have q: "0 < q" by (simp add: q_def)
  have p52: "pow2 52 = 2 ^ 52" and p53: "pow2 53 = 2 ^ 53"
    by (simp_all add: pow2_def)
  have "pow2 (k + 52) = 2 ^ 52 * pow2 k"
    using pow2_add [of k 52] by (simp add: p52)
  moreover have "(2 :: rat) ^ 52 \<le> of_int m"
    using assms(1) by (metis of_int_le_iff of_int_numeral of_int_power)
  ultimately have lo: "pow2 (k + 52) \<le> q"
    using pow2_pos [of k] by (simp add: q_def)
  have "pow2 (k + 52 + 1) = 2 ^ 53 * pow2 k"
    using pow2_add [of 53 k] by (simp add: p53)
  moreover have "of_int m < (2 :: rat) ^ 53"
    using assms(2) by (metis of_int_less_iff of_int_numeral of_int_power)
  ultimately have hi: "q < pow2 (k + 52 + 1)"
    using pow2_pos [of k] by (simp add: q_def)
  have e: "floor_log2 q = k + 52"
    by (rule floor_log2_unique [OF q lo hi])
  have "q / pow2 k = of_int m"
    using pow2_pos [of k] by (simp add: q_def)
  then have "to_double q = of_int m * pow2 k"
    using q assms(3) by (simp add: to_double_def e round_half_even_int max_def)
  then show ?thesis by (simp add: q_def)
qed

lemma js_divide_accuracy:
  assumes "10 \<le> z" and "z \<le> 200"
  shows "\<bar>js_divide z 100 - z / 100\<bar> \<le> 1 / 2 ^ 53"
proof (cases "z = 200")
  case True
  have "js_divide 200 100 = 2" by code_simp
  with True show ?thesis by simp
next
  case False
  define q where "q = z / 100"
  from assms False have q: "1 / 10 \<le> q" "q < 2" by (simp_all add: q_def)
  then have pos: "0 < q" by simp
  note b = floor_log2_bounds [OF pos]
  have "pow2 (floor_log2 q) < pow2 1"
    using b(1) q(2) by (simp add: pow2_def)
  then have up: "floor_log2 q \<le> 0"
    using pow2_less_cancel by fastforce
  have "pow2 (- 4) < pow2 (floor_log2 q + 1)"
    using b(2) q(1) by (simp add: pow2_def)
  then have "- 4 < floor_log2 q + 1"
    by (rule pow2_less_cancel)
  with up have k: "max (floor_log2 \<bar>q\<bar> - 52) (- 1074) = floor_log2 q - 52"
    using pos by simp
  from pos have "\<bar>to_double q - q\<bar> \<le> pow2 (floor_log2 q - 52) / 2"
    using to_double_error [of q] unfolding k by simp
  also have "\<dots> \<le> pow2 (- 52) / 2"
    using pow2_mono [of "floor_log2 q - 52" "- 52"] up by simp
  also have "\<dots> = 1 / 2 ^ 53"
    by (simp add: pow2_def)
  finally show ?thesis by (simp add: js_divide_def q_def)
qed

text \<open>Quotients by 100, as JavaScript computes them: exact at 100 and 150, rounded at
  33 and at the double nearest to 10.1.\<close>

lemma js_divide_100: "js_divide 100 100 = 1"
  by code_simp

lemma js_divide_150: "js_divide 150 100 = 3 / 2"
  by code_simp

lemma js_divide_33: "js_divide 33 100 = 5944751508129055 / 18014398509481984"
  by code_simp

lemma js_divide_nearest_10_1:
  "to_double (101 / 10) = 5685794529555251 / 562949953421312"
  "js_divide (5685794529555251 / 562949953421312) 100 = 7277816997830721 / 72057594037927936"
  by code_simp+

section \<open>Laws of the steps\<close>

text \<open>How \<open>and_then\<close> runs each kind of step: the equations by which a run of the
  handler is computed.\<close>

lemma and_then_perform:
  "and_then (perform e c) f tr =
     (if throws e c then (Inl (BrowserError c), tr @ [c]) else f () (tr @ [c]))"
  by (simp add: and_then_def perform_def)

lemma and_then_perform_bytes:
  "and_then (perform_bytes e c) f tr =
     (if throws e c then (Inl (BrowserError c), tr @ [c]) else f (captured e c) (tr @ [c]))"
  by (simp add: and_then_def perform_bytes_def)

lemma and_then_sleep: "and_then (sleep ms) f tr = f () (tr @ [SetTimeout ms])"
  by (simp add: and_then_def sleep_def)

lemma and_then_done_step: "and_then (done_step x) f tr = f x tr"
  by (simp add: and_then_def done_step_def)

lemma and_then_throw_step: "and_then (throw_step err) f tr = (Inl err, tr)"
  by (simp add: and_then_def throw_step_def)

lemma and_then_if:
  "and_then (if b then m else n) f tr = (if b then and_then m f tr else and_then n f tr)"
  by simp

lemma and_then_assoc: "and_then (and_then m f) g tr = and_then m (\<lambda>x. and_then (f x) g) tr"
  by (simp add: and_then_def split: prod.splits sum.splits)

lemmas run_simps = and_then_perform and_then_perform_bytes and_then_sleep and_then_done_step
  and_then_throw_step and_then_if and_then_assoc done_step_def capture_def take_screenshot_def

section \<open>The run after validation\<close>

text \<open>Every call of a run is one of the calls of the source, under the guard the
  source puts on it.\<close>

lemma capture_trace:
  assumes "c \<in> set (snd (capture e v []))"
  shows "c = Launch True \<or> c = NewPage \<or>
     c = SetViewport (width v) (height v) (js_divide (zoom v) 100) \<or>
     noAds v \<and> c = SetRequestInterception True \<or>
     noAds v \<and> c = PageOn ''request'' request_listener \<or>
     c = Goto (url v) ''networkidle0'' \<or>
     truthy (css v) \<and> c = Evaluate (the (css v)) \<or>
     0 < delay v \<and> c = SetTimeout (delay v) \<or>
     format v = PDF \<and> c = Pdf ''A4'' True \<or>
     format v \<noteq> PDF \<and>
       c = Screenshot (fullSize v) (format v) (if format v = JPEG then Some (quality v) else None) \<or>
     c = Close"
  using assms by (simp add: run_simps split: if_splits) blast+

lemma capture_success:
  assumes "fst (capture e v []) = Inr uri"
  shows "snd (capture e v []) =
     [Launch True, NewPage, SetViewport (width v) (height v) (js_divide (zoom v) 100)] @
     (if noAds v then [SetRequestInterception True, PageOn ''request'' request_listener] else []) @
     [Goto (url v) ''networkidle0''] @
     (if truthy (css v) then [Evaluate (the (css v))] else []) @
     (if 0 < delay v then [SetTimeout (delay v)] else []) @
     [if format v = PDF then Pdf ''A4'' True
      else Screenshot (fullSize v) (format v) (if format v = JPEG then Some (quality v) else None),
      Close]"
    and "uri = data_uri e v (captured e
       (if format v = PDF then Pdf ''A4'' True
        else Screenshot (fullSize v) (format v) (if format v = JPEG then Some (quality v) else None)))"
  using assms by (simp_all add: run_simps split: if_splits)

lemma capture_fails_iff:
  "(\<exists>err. fst (capture e v []) = Inl err) \<longleftrightarrow>
   (\<exists>c \<in> set (snd (capture e v [])). throws e c \<and> (\<forall>ms. c \<noteq> SetTimeout ms))"
  by (simp add: run_simps)

section \<open>The handler on each kind of body\<close>

lemma POST_not_json:
  "POST e None = \<lparr>returned = failure_response, calls = [], logged = Some SyntaxError\<rparr>"
  by (simp add: POST_def try_block_def req_json_def and_then_throw_step)

lemma POST_invalid:
  "screenshotSchema (isUrl e) data = Inl err \<Longrightarrow>
   POST e (Some data) = \<lparr>returned = failure_response, calls = [], logged = Some err\<rparr>"
  by (simp add: POST_def try_block_def req_json_def parse_def and_then_done_step and_then_throw_step)

lemma POST_valid:
  "screenshotSchema (isUrl e) data = Inr v \<Longrightarrow>
   POST e (Some data) =
     (case capture e v [] of
        (Inr uri, tr) \<Rightarrow> \<lparr>returned = success_response uri, calls = tr, logged = None\<rparr>
      | (Inl err, tr) \<Rightarrow> \<lparr>returned = failure_response, calls = tr, logged = Some err\<rparr>)"
  by (simp add: POST_def try_block_def req_json_def parse_def and_then_done_step)

lemma calls_POST_valid:
  "screenshotSchema (isUrl e) data = Inr v \<Longrightarrow> calls (POST e (Some data)) = snd (capture e v [])"
  by (simp add: POST_valid split: prod.splits sum.splits)

lemma returned_POST_valid:
  "screenshotSchema (isUrl e) data = Inr v \<Longrightarrow>
   returned (POST e (Some data)) =
     (case fst (capture e v []) of Inr uri \<Rightarrow> success_response uri | Inl err \<Rightarrow> failure_response)"
  by (simp add: POST_valid split: prod.splits sum.splits)

lemma success_POST_valid:
  assumes "screenshotSchema (isUrl e) data = Inr v" and "success (returned (POST e (Some data)))"
  shows "\<exists>uri. fst (capture e v []) = Inr uri \<and> returned (POST e (Some data)) = success_response uri"
  using assms by (auto simp: returned_POST_valid failure_response_def split: sum.splits)

section \<open>What the schema accepts\<close>

lemma z_string_Some: "z_string x = Some s \<longleftrightarrow> x = Some (JString s)"
  by (auto simp: z_string_def split: option.splits json.splits)

lemma z_string_url_Some: "z_string_url valid x = Some s \<longleftrightarrow> x = Some (JString s) \<and> valid s"
  by (auto simp: z_string_url_def z_string_def split: option.splits json.splits if_splits)

lemma z_boolean_Some: "z_boolean x = Some b \<longleftrightarrow> x = Some (JBool b)"
  by (auto simp: z_boolean_def split: option.splits json.splits)

lemma z_number_min_max_Some:
  "z_number_min_max lo hi x = Some n \<longleftrightarrow> x = Some (JNumber n) \<and> lo \<le> n \<and> n \<le> hi"
  by (auto simp: z_number_min_max_def split: option.splits json.splits if_splits)

lemma z_enum_format_Some: "z_enum_format x = Some f \<longleftrightarrow> x = Some (JString (format_name f))"
  by (cases f) (auto simp: z_enum_format_def z_string_def split: option.splits json.splits if_splits)

lemma screenshotFields_Some:
  "screenshotFields valid get = Some v \<longleftrightarrow>
     z_string_url valid (get ''url'') = Some (url v) \<and>
     z_default z_boolean False (get ''fullSize'') = Some (fullSize v) \<and>
     z_default z_boolean False (get ''useProxy'') = Some (useProxy v) \<and>
     z_default z_boolean False (get ''noAds'') = Some (noAds v) \<and>
     z_number_min_max 100 3840 (get ''width'') = Some (width v) \<and>
     z_number_min_max 100 2160 (get ''height'') = Some (height v) \<and>
     z_number_min_max 10 200 (get ''zoom'') = Some (zoom v) \<and>
     z_default z_enum_format PNG (get ''format'') = Some (format v) \<and>
     z_default (z_number_min_max 0 100) 80 (get ''quality'') = Some (quality v) \<and>
     z_default (z_number_min_max 0 10000) 0 (get ''delay'') = Some (delay v) \<and>
     z_optional z_string (get ''css'') = Some (css v)"
  by (cases v) (simp add: screenshotFields_def bind_eq_Some_conv)

lemma screenshotSchema_Inr:
  "screenshotSchema valid (JObject props) = Inr v \<longleftrightarrow> screenshotFields valid (map_of props) = Some v"
  by (simp add: screenshotSchema_def split: option.splits)

lemma screenshotSchema_Inl:
  "screenshotSchema valid data = Inl err \<Longrightarrow> err = ZodError"
  by (auto simp: screenshotSchema_def split: option.splits json.splits)

lemma z_default_boolean_Some:
  "z_default z_boolean d x = Some b \<longleftrightarrow> x = None \<and> b = d \<or> x = Some (JBool b)"
  by (auto simp: z_default_def z_boolean_Some split: option.splits)

lemma z_default_number_Some:
  "z_default (z_number_min_max lo hi) d x = Some n \<longleftrightarrow>
     x = None \<and> n = d \<or> x = Some (JNumber n) \<and> lo \<le> n \<and> n \<le> hi"
  by (auto simp: z_default_def z_number_min_max_Some split: option.splits)

lemma z_default_format_Some:
  "z_default z_enum_format d x = Some f \<longleftrightarrow>
     x = None \<and> f = d \<or> x = Some (JString (format_name f))"
  by (auto simp: z_default_def z_enum_format_Some split: option.splits)

lemma z_optional_string_Some:
  "z_optional z_string x = Some y \<longleftrightarrow>
     x = None \<and> y = None \<or> (\<exists>c. x = Some (JString c) \<and> y = Some c)"
  by (auto simp: z_optional_def z_string_Some split: option.splits)

text \<open>What the schema rejects: a URL the check refuses, and a numeric field that holds
  something else than a number, or a number outside its range.\<close>

lemma screenshotSchema_not_Inr:
  assumes "\<forall>v. screenshotSchema valid data \<noteq> Inr v"
  shows "screenshotSchema valid data = Inl ZodError"
proof (cases "screenshotSchema valid data")
  case (Inl err)
  with screenshotSchema_Inl [OF Inl] show ?thesis by simp
next
  case (Inr v)
  with assms show ?thesis by simp
qed

lemma number_field_rejects:
  assumes "get k = Some j" and "\<forall>n. j = JNumber n \<longrightarrow> n < lo \<or> hi < n"
  shows "z_number_min_max lo hi (get k) = None" and "z_default (z_number_min_max lo hi) d (get k) = None"
  using assms by (auto simp: z_number_min_max_def z_default_def split: json.splits)

lemma malformed_url_is_rejected:
  assumes "map_of props ''url'' = Some (JString u)" and "\<not> valid u"
  shows "screenshotSchema valid (JObject props) = Inl ZodError"
proof -
  have "z_string_url valid (map_of props ''url'') = None"
    using assms by (simp add: z_string_url_def z_string_def)
  then show ?thesis
    by (simp add: screenshotSchema_def screenshotFields_def)
qed

lemma numeric_field_is_rejected:
  assumes "map_of props k = Some j"
    and "k = ''width'' \<and> lo = 100 \<and> hi = 3840 \<or>
         k = ''height'' \<and> lo = 100 \<and> hi = 2160 \<or>
         k = ''zoom'' \<and> lo = 10 \<and> hi = 200 \<or>
         k = ''quality'' \<and> lo = 0 \<and> hi = 100 \<or>
         k = ''delay'' \<and> lo = 0 \<and> hi = 10000"
    and "\<forall>n. j = JNumber n \<longrightarrow> n < lo \<or> hi < n"
  shows "screenshotSchema valid (JObject props) = Inl ZodError"
proof (rule screenshotSchema_not_Inr, intro allI)
  fix v
  note none = number_field_rejects [of "map_of props", OF assms(1) assms(3)]
  from assms(2) none(1) none(2) [of 80] none(2) [of 0]
  show "screenshotSchema valid (JObject props) \<noteq> Inr v"
    by (elim disjE conjE) (simp_all add: screenshotSchema_Inr screenshotFields_Some)
qed

text \<open>The zoom of a validated request lies in its range.\<close>

lemma screenshotSchema_zoom_range:
  assumes "screenshotSchema valid data = Inr v"
  shows "10 \<le> zoom v" and "zoom v \<le> 200"
proof -
  from assms obtain props where "data = JObject props"
    by (cases data) (simp_all add: screenshotSchema_def)
  with assms have "z_number_min_max 10 200 (map_of props ''zoom'') = Some (zoom v)"
    by (simp add: screenshotSchema_Inr screenshotFields_Some)
  then show "10 \<le> zoom v" and "zoom v \<le> 200"
    by (simp_all add: z_number_min_max_Some)
qed

section \<open>Substrings\<close>

lemma startsWith_iff: "startsWith s sub \<longleftrightarrow> (\<exists>q. s = sub @ q)"
  by (induction s sub rule: startsWith.induct) auto

lemma includes_str_iff: "includes_str s sub \<longleftrightarrow> (\<exists>p q. s = p @ sub @ q)"
proof (induction s)
  case Nil
  then show ?case by auto
next
  case (Cons d s)
  have "(\<exists>p q. d # s = p @ sub @ q) \<longleftrightarrow> (\<exists>q. d # s = sub @ q) \<or> (\<exists>p q. s = p @ sub @ q)"
  proof
    assume "\<exists>p q. d # s = p @ sub @ q"
    then obtain p q where pq: "d # s = p @ sub @ q" by blast
    show "(\<exists>q. d # s = sub @ q) \<or> (\<exists>p q. s = p @ sub @ q)"
    proof (cases p)
      case Nil
      with pq show ?thesis by auto
    next
      case (Cons a p')
      with pq have "s = p' @ sub @ q" by simp
      then show ?thesis by blast
    qed
  next
    assume "(\<exists>q. d # s = sub @ q) \<or> (\<exists>p q. s = p @ sub @ q)"
    then show "\<exists>p q. d # s = p @ sub @ q"
    proof
      assume "\<exists>q. d # s = sub @ q"
      then obtain q where "d # s = [] @ sub @ q" by auto
      then show ?thesis by blast
    next
      assume "\<exists>p q. s = p @ sub @ q"
      then obtain p q where "d # s = (d # p) @ sub @ q" by auto
      then show ?thesis by blast
    qed
  qed
  with Cons show ?case by (simp add: startsWith_iff)
qed

section \<open>Unfolding on the examples\<close>

text \<open>The definitions to unfold when the schema and the handler are run on a concrete
  body and environment.\<close>

lemmas schema_defs = screenshotSchema_def screenshotFields_def z_string_url_def z_string_def
  z_default_def z_boolean_def z_number_min_max_def z_enum_format_def z_optional_def

lemmas handler_defs = POST_def try_block_def req_json_def parse_def data_uri_def truthy_def
  success_response_def failure_response_def

lemmas example_defs = example_env_def goto_fails_env_def example_body_def request_body_def
  example_validated_def sextet_def base64_alphabet_def js_divide_100 js_divide_150 js_divide_33

section \<open>Release of the browser\<close>

text \<open>\<^verbatim>\<open>browser.close()\<close> is reached only at the end of a run in which nothing before
  it has thrown: a run that succeeds closes the browser once, a run that fails before
  line 92 never does.\<close>

lemma success_neq_failure: "success_response uri \<noteq> failure_response"
  by (simp add: success_response_def failure_response_def)

lemma capture_closed:
  assumes "Close \<in> set (snd (capture e v []))" and "\<not> throws e Close"
  shows "\<exists>uri. fst (capture e v []) = Inr uri"
  using assms by (simp add: run_simps split: if_splits)

lemma capture_viewport_reached:
  assumes "\<not> throws e (Launch True)" and "\<not> throws e NewPage"
  shows "SetViewport (width v) (height v) (js_divide (zoom v) 100) \<in> set (snd (capture e v []))"
  using assms by (simp add: run_simps)

lemma capture_launch_first:
  "\<exists>rest. snd (capture e v []) = Launch True # rest"
  by (simp add: run_simps)

lemma failed_run_never_closes:
  assumes "screenshotSchema (isUrl e) data = Inr v"
    and "returned (POST e (Some data)) = failure_response"
    and "\<not> throws e Close"
  shows "Launch True \<in> set (calls (POST e (Some data))) \<and> Close \<notin> set (calls (POST e (Some data)))"
proof -
  from assms(1,2) have "\<not> (\<exists>uri. fst (capture e v []) = Inr uri)"
    by (auto simp: returned_POST_valid success_neq_failure split: sum.splits)
  with capture_closed [OF _ assms(3)] have "Close \<notin> set (snd (capture e v []))"
    by blast
  moreover from capture_launch_first obtain rest where "snd (capture e v []) = Launch True # rest"
    by blast
  ultimately show ?thesis
    by (simp add: calls_POST_valid [OF assms(1)])
qed

lemma successful_run_closes_once:
  assumes "screenshotSchema (isUrl e) data = Inr v"
    and "success (returned (POST e (Some data)))"
  shows "count_list (calls (POST e (Some data))) Close = 1"
proof -
  from success_POST_valid [OF assms] obtain uri where "fst (capture e v []) = Inr uri"
    by blast
  from capture_success(1) [OF this] show ?thesis
    by (simp add: calls_POST_valid [OF assms(1)])
qed

section \<open>What a run reads of the request\<close>

text \<open>A run does not read \<^verbatim>\<open>useProxy\<close>, and reads of \<^verbatim>\<open>css\<close> only whether it is
  truthy and, if so, its text.\<close>

lemma capture_useProxy: "capture e (v\<lparr>useProxy := b\<rparr>) = capture e v"
  by (simp add: capture_def take_screenshot_def data_uri_def)

lemma capture_empty_css:
  assumes "css v = Some []"
  shows "capture e v = capture e (v\<lparr>css := None\<rparr>)"
  using assms by (simp add: capture_def take_screenshot_def data_uri_def truthy_def)

lemma POST_same_capture:
  assumes "screenshotSchema (isUrl e) data = Inr v"
    and "screenshotSchema (isUrl e) data' = Inr v'"
    and "capture e v = capture e v'"
  shows "POST e (Some data) = POST e (Some data')"
  by (simp add: POST_valid [OF assms(1)] POST_valid [OF assms(2)] assms(3))

lemma POST_both_invalid:
  assumes "screenshotSchema (isUrl e) data = Inl err"
    and "screenshotSchema (isUrl e) data' = Inl err'"
  shows "POST e (Some data) = POST e (Some data')"
  using assms screenshotSchema_Inl [OF assms(1)] screenshotSchema_Inl [OF assms(2)]
  by (simp add: POST_invalid)

lemma screenshotFields_useProxy:
  assumes same: "\<forall>k. k \<noteq> ''useProxy'' \<longrightarrow> get1 k = get2 k"
    and b1: "z_default z_boolean False (get1 ''useProxy'') = Some b1"
    and b2: "z_default z_boolean False (get2 ''useProxy'') = Some b2"
  shows "screenshotFields valid get1 = map_option (\<lambda>v. v\<lparr>useProxy := b1\<rparr>) (screenshotFields valid get2)"
proof -
  have "get1 ''url'' = get2 ''url''" "get1 ''fullSize'' = get2 ''fullSize''"
    "get1 ''noAds'' = get2 ''noAds''" "get1 ''width'' = get2 ''width''"
    "get1 ''height'' = get2 ''height''" "get1 ''zoom'' = get2 ''zoom''"
    "get1 ''format'' = get2 ''format''" "get1 ''quality'' = get2 ''quality''"
    "get1 ''delay'' = get2 ''delay''" "get1 ''css'' = get2 ''css''"
    using same by simp_all
  then show ?thesis
    by (simp add: screenshotFields_def b1 b2 split: Option.bind_split)
qed

lemma screenshotFields_css:
  assumes same: "\<forall>k. k \<noteq> ''css'' \<longrightarrow> get1 k = get2 k"
    and c1: "get1 ''css'' = Some (JString c)"
    and c2: "get2 ''css'' = None"
  shows "screenshotFields valid get1 = map_option (\<lambda>v. v\<lparr>css := Some c\<rparr>) (screenshotFields valid get2)"
proof -
  have "get1 ''url'' = get2 ''url''" "get1 ''fullSize'' = get2 ''fullSize''"
    "get1 ''useProxy'' = get2 ''useProxy''"
    "get1 ''noAds'' = get2 ''noAds''" "get1 ''width'' = get2 ''width''"
    "get1 ''height'' = get2 ''height''" "get1 ''zoom'' = get2 ''zoom''"
    "get1 ''format'' = get2 ''format''" "get1 ''quality'' = get2 ''quality''"
    "get1 ''delay'' = get2 ''delay''"
    using same by simp_all
  then show ?thesis
    by (simp add: screenshotFields_def c1 c2 z_optional_def z_string_def split: Option.bind_split)
qed

section \<open>The claims\<close>

text \<open>
  C1. The claim: when a step after the launch fails, the handler still releases the
  browser session before it returns the failure response, so that the session is released
  exactly once per request. The source closes the browser on line 92 only, inside the
  \<^verbatim>\<open>try\<close> block and after the capture; the \<^verbatim>\<open>catch\<close> of lines 102-105 does not.
  On the example request with a navigation that throws, the handler launches the
  browser, opens a page, sets the viewport, attempts the navigation and returns the
  failure response: \<^verbatim>\<open>browser.close()\<close> is not among its calls.
\<close>

theorem navigation_failure_leaves_browser_open:
  "calls (POST goto_fails_env (Some example_body)) =
     [Launch True, NewPage, SetViewport 1280 720 1, Goto ''https://example.com'' ''networkidle0''] \<and>
   Close \<notin> set (calls (POST goto_fails_env (Some example_body))) \<and>
   returned (POST goto_fails_env (Some example_body)) = failure_response"
  by (simp add: handler_defs schema_defs example_defs run_simps)

text \<open>
  C2. A body that fails validation gets the failure response and no browser session:
  when \<^verbatim>\<open>screenshotSchema.parse\<close> throws, the handler has made no call at all, the
  launch included, and returns the failure response. The schema throws on a numeric
  field of the wrong type or outside its range and on a URL the check refuses
  (\<open>numeric_field_is_rejected\<close>, \<open>malformed_url_is_rejected\<close>).
\<close>

theorem validation_failure_launches_nothing:
  assumes "screenshotSchema (isUrl e) data = Inl err"
  shows "calls (POST e (Some data)) = [] \<and> returned (POST e (Some data)) = failure_response"
  using assms by (simp add: POST_invalid)

text \<open>The three kinds of invalid body: a width below its range, a width that is a string,
  and a URL the check refuses.\<close>

theorem validation_failure_launches_nothing_witness:
  "calls (POST example_env (Some (request_body (JString ''https://example.com'') (JNumber 50) 100 ''png'' []))) = [] \<and>
   returned (POST example_env (Some (request_body (JString ''https://example.com'') (JNumber 50) 100 ''png'' []))) = failure_response \<and>
   calls (POST example_env (Some (request_body (JString ''https://example.com'') (JString ''1280'') 100 ''png'' []))) = [] \<and>
   returned (POST example_env (Some (request_body (JString ''https://example.com'') (JString ''1280'') 100 ''png'' []))) = failure_response \<and>
   calls (POST example_env (Some (request_body (JString ''not a url'') (JNumber 1280) 100 ''png'' []))) = [] \<and>
   returned (POST example_env (Some (request_body (JString ''not a url'') (JNumber 1280) 100 ''png'' []))) = failure_response"
proof -
  have out_of_range: "screenshotSchema (isUrl example_env)
      (request_body (JString ''https://example.com'') (JNumber 50) 100 ''png'' []) = Inl ZodError"
    by (simp add: schema_defs example_defs)
  have wrong_type: "screenshotSchema (isUrl example_env)
      (request_body (JString ''https://example.com'') (JString ''1280'') 100 ''png'' []) = Inl ZodError"
    by (simp add: schema_defs example_defs)
  have bad_url: "screenshotSchema (isUrl example_env)
      (request_body (JString ''not a url'') (JNumber 1280) 100 ''png'' []) = Inl ZodError"
    by (simp add: schema_defs example_defs)
  show ?thesis
    using validation_failure_launches_nothing [OF out_of_range]
      validation_failure_launches_nothing [OF wrong_type]
      validation_failure_launches_nothing [OF bad_url]
    by simp
qed

text \<open>
  C3. On a valid request that succeeds, the \<^verbatim>\<open>screenshot\<close> string is
  \<^verbatim>\<open>data:application/pdf;base64,\<close> for the format \<^verbatim>\<open>pdf\<close>,
  \<^verbatim>\<open>data:image/png;base64,\<close> or \<^verbatim>\<open>data:image/jpeg;base64,\<close> otherwise, followed
  by the base64 encoding of the bytes that the capture call of the run resolved to.
\<close>

theorem success_screenshot_is_data_uri:
  assumes "screenshotSchema (isUrl e) data = Inr v"
    and "success (returned (POST e (Some data)))"
  shows "\<exists>c. c \<in> set (calls (POST e (Some data))) \<and>
     c = (if format v = PDF then Pdf ''A4'' True
          else Screenshot (fullSize v) (format v)
                 (if format v = JPEG then Some (quality v) else None)) \<and>
     screenshot (returned (POST e (Some data))) =
       Some ((case format v of
                PNG \<Rightarrow> ''data:image/png;base64,''
              | JPEG \<Rightarrow> ''data:image/jpeg;base64,''
              | PDF \<Rightarrow> ''data:application/pdf;base64,'') @
             base64 e (captured e c))"
proof -
  from success_POST_valid [OF assms] obtain uri
    where run: "fst (capture e v []) = Inr uri"
      and ret: "returned (POST e (Some data)) = success_response uri"
    by blast
  note ok = capture_success [OF run]
  have "screenshot (returned (POST e (Some data))) = Some uri"
    by (simp add: ret success_response_def)
  moreover have "calls (POST e (Some data)) = snd (capture e v [])"
    by (rule calls_POST_valid [OF assms(1)])
  ultimately show ?thesis
    unfolding ok by (cases "format v") (simp_all add: data_uri_def)
qed

text \<open>The example scenario: the four captured bytes come back as
  \<^verbatim>\<open>data:image/png;base64,iVBORw==\<close>.\<close>

theorem success_screenshot_is_data_uri_witness:
  "screenshot (returned (POST example_env (Some example_body))) =
     Some ''data:image/png;base64,iVBORw=='' \<and>
   Screenshot False PNG None \<in> set (calls (POST example_env (Some example_body))) \<and>
   base64 example_env (captured example_env (Screenshot False PNG None)) = ''iVBORw==''"
proof -
  have valid: "screenshotSchema (isUrl example_env) example_body = Inr example_validated"
    by (simp add: schema_defs example_defs)
  have ok: "success (returned (POST example_env (Some example_body)))"
    by (simp add: handler_defs schema_defs example_defs run_simps)
  show ?thesis
    using success_screenshot_is_data_uri [OF valid ok]
    by (simp add: example_defs)
qed

text \<open>
  C4. The listener is installed only when \<^verbatim>\<open>noAds\<close> is true, on the event
  \<^verbatim>\<open>request\<close>, and a run with \<^verbatim>\<open>noAds\<close> that succeeds has enabled interception and
  installed it. The listener aborts a request if and only if its resource type is
  \<^verbatim>\<open>image\<close>, \<^verbatim>\<open>media\<close> or \<^verbatim>\<open>script\<close>, or its URL contains \<^verbatim>\<open>ads\<close> or
  \<^verbatim>\<open>analytics\<close>; it continues every other request.
\<close>

theorem request_listener_decision:
  assumes "screenshotSchema (isUrl e) data = Inr v"
  shows "(\<forall>ev h. PageOn ev h \<in> set (calls (POST e (Some data))) \<longrightarrow>
            noAds v \<and> ev = ''request'' \<and> h = request_listener) \<and>
         (noAds v \<and> success (returned (POST e (Some data))) \<longrightarrow>
            SetRequestInterception True \<in> set (calls (POST e (Some data))) \<and>
            PageOn ''request'' request_listener \<in> set (calls (POST e (Some data)))) \<and>
         (\<forall>r. request_listener r = Abort \<longleftrightarrow>
            resourceType r = ''image'' \<or> resourceType r = ''media'' \<or>
            resourceType r = ''script'' \<or>
            (\<exists>p q. request_url r = p @ ''ads'' @ q) \<or>
            (\<exists>p q. request_url r = p @ ''analytics'' @ q)) \<and>
         (\<forall>r. request_listener r = Continue \<longleftrightarrow>
            \<not> (resourceType r = ''image'' \<or> resourceType r = ''media'' \<or>
               resourceType r = ''script'' \<or>
               (\<exists>p q. request_url r = p @ ''ads'' @ q) \<or>
               (\<exists>p q. request_url r = p @ ''analytics'' @ q)))"
proof (intro conjI allI impI)
  fix ev h
  assume "PageOn ev h \<in> set (calls (POST e (Some data)))"
  then have "PageOn ev h \<in> set (snd (capture e v []))"
    by (simp add: calls_POST_valid [OF assms])
  from capture_trace [OF this] show "noAds v" and "ev = ''request''" and "h = request_listener"
    by simp_all
next
  assume a: "noAds v \<and> success (returned (POST e (Some data)))"
  with success_POST_valid [OF assms] obtain uri where "fst (capture e v []) = Inr uri"
    by blast
  from capture_success(1) [OF this] a
  show "SetRequestInterception True \<in> set (calls (POST e (Some data)))"
    and "PageOn ''request'' request_listener \<in> set (calls (POST e (Some data)))"
    by (simp_all add: calls_POST_valid [OF assms])
next
  fix r
  show "request_listener r = Abort \<longleftrightarrow>
      resourceType r = ''image'' \<or> resourceType r = ''media'' \<or> resourceType r = ''script'' \<or>
      (\<exists>p q. request_url r = p @ ''ads'' @ q) \<or> (\<exists>p q. request_url r = p @ ''analytics'' @ q)"
    by (simp add: request_listener_def includes_str_iff)
next
  fix r
  show "request_listener r = Continue \<longleftrightarrow>
      \<not> (resourceType r = ''image'' \<or> resourceType r = ''media'' \<or> resourceType r = ''script'' \<or>
         (\<exists>p q. request_url r = p @ ''ads'' @ q) \<or> (\<exists>p q. request_url r = p @ ''analytics'' @ q))"
    by (simp add: request_listener_def includes_str_iff)
qed

text \<open>A request with \<^verbatim>\<open>noAds\<close>: an image, a page whose URL happens to contain
  \<^verbatim>\<open>ads\<close> and an analytics call are aborted, the page itself is continued.\<close>

theorem request_listener_decision_witness:
  "PageOn ''request'' request_listener \<in>
     set (calls (POST example_env (Some (request_body (JString ''https://example.com'')
       (JNumber 1280) 100 ''png'' [(''noAds'', JBool True)])))) \<and>
   request_listener (HTTPRequest ''image'' ''https://example.com/logo.png'') = Abort \<and>
   request_listener (HTTPRequest ''document'' ''https://example.com/downloads'') = Abort \<and>
   request_listener (HTTPRequest ''xhr'' ''https://example.com/analytics.json'') = Abort \<and>
   request_listener (HTTPRequest ''document'' ''https://example.com/'') = Continue"
proof -
  have valid: "screenshotSchema (isUrl example_env)
      (request_body (JString ''https://example.com'') (JNumber 1280) 100 ''png''
        [(''noAds'', JBool True)]) =
      Inr (example_validated\<lparr>noAds := True\<rparr>)"
    by (simp add: schema_defs example_defs)
  have ok: "success (returned (POST example_env
      (Some (request_body (JString ''https://example.com'') (JNumber 1280) 100 ''png''
        [(''noAds'', JBool True)]))))"
    by (simp add: handler_defs schema_defs example_defs run_simps)
  have ads: "''https://example.com/downloads'' = ''https://example.com/downlo'' @ ''ads'' @ ''''"
    and analytics: "''https://example.com/analytics.json'' =
      ''https://example.com/'' @ ''analytics'' @ ''.json''"
    by simp_all
  note decision = request_listener_decision [OF valid]
  from decision ok have "PageOn ''request'' request_listener \<in>
     set (calls (POST example_env (Some (request_body (JString ''https://example.com'')
       (JNumber 1280) 100 ''png'' [(''noAds'', JBool True)]))))"
    by (simp add: example_validated_def)
  moreover from decision have "request_listener (HTTPRequest ''image'' ''https://example.com/logo.png'') = Abort"
    by simp
  moreover from decision ads have "request_listener (HTTPRequest ''document'' ''https://example.com/downloads'') = Abort"
    by (metis http_request.sel(2))
  moreover from decision analytics have "request_listener (HTTPRequest ''xhr'' ''https://example.com/analytics.json'') = Abort"
    by (metis http_request.sel(2))
  moreover have "request_listener (HTTPRequest ''document'' ''https://example.com/'') = Continue"
    by (simp add: request_listener_def)
  ultimately show ?thesis by blast
qed

text \<open>
  C5. Whatever fails (the body is not JSON, the schema rejects it, or a call on the
  browser throws), the response is the same: status 500 and the body with
  \<^verbatim>\<open>success: false\<close> and the one fixed message. The timer is no call on the browser
  and cannot throw, so the environment is not asked about it.
\<close>

theorem every_failure_same_response:
  assumes "req = None \<or>
     (\<exists>data err. req = Some data \<and> screenshotSchema (isUrl e) data = Inl err) \<or>
     (\<exists>c \<in> set (calls (POST e req)). throws e c \<and> (\<forall>ms. c \<noteq> SetTimeout ms))"
  shows "returned (POST e req) =
     \<lparr>status = 500, success = False, screenshot = None,
      error = Some ''Failed to capture screenshot''\<rparr>"
proof -
  have "returned (POST e req) = failure_response"
  proof (cases req)
    case None
    then show ?thesis by (simp add: POST_not_json)
  next
    case (Some data)
    show ?thesis
    proof (cases "screenshotSchema (isUrl e) data")
      case (Inl err)
      with Some show ?thesis by (simp add: POST_invalid)
    next
      case (Inr v)
      with assms Some
      have "\<exists>c \<in> set (snd (capture e v [])). throws e c \<and> (\<forall>ms. c \<noteq> SetTimeout ms)"
        by (simp add: calls_POST_valid)
      then obtain err where "fst (capture e v []) = Inl err"
        unfolding capture_fails_iff [symmetric] by blast
      with Some Inr show ?thesis by (simp add: returned_POST_valid)
    qed
  qed
  then show ?thesis by (simp add: failure_response_def)
qed

text \<open>One failure of each kind, with the same response.\<close>

theorem every_failure_same_response_witness:
  "returned (POST example_env None) =
     \<lparr>status = 500, success = False, screenshot = None,
      error = Some ''Failed to capture screenshot''\<rparr> \<and>
   returned (POST example_env (Some (request_body (JString ''https://example.com'')
       (JNumber 50) 100 ''png'' []))) =
     \<lparr>status = 500, success = False, screenshot = None,
      error = Some ''Failed to capture screenshot''\<rparr> \<and>
   returned (POST goto_fails_env (Some example_body)) =
     \<lparr>status = 500, success = False, screenshot = None,
      error = Some ''Failed to capture screenshot''\<rparr>"
proof -
  have invalid: "screenshotSchema (isUrl example_env)
      (request_body (JString ''https://example.com'') (JNumber 50) 100 ''png'' []) = Inl ZodError"
    by (simp add: schema_defs example_defs)
  have thrown: "\<exists>c \<in> set (calls (POST goto_fails_env (Some example_body))).
      throws goto_fails_env c \<and> (\<forall>ms. c \<noteq> SetTimeout ms)"
    by (simp add: handler_defs schema_defs example_defs run_simps)
  show ?thesis
    using every_failure_same_response [of None example_env]
      every_failure_same_response [of "Some (request_body (JString ''https://example.com'')
         (JNumber 50) 100 ''png'' [])" example_env]
      every_failure_same_response [of "Some example_body" goto_fails_env]
      invalid thrown
    by simp
qed

text \<open>
  C6, as amended. The numeric fields are numbers within inclusive ranges, integers or
  not: the schema accepts an object exactly when each property meets the condition
  below, where \<open>width\<close>, \<open>height\<close>, \<open>zoom\<close>, \<open>quality\<close> and \<open>delay\<close> may be any
  number between their bounds, and the accepted value is the number given.
\<close>

theorem screenshotSchema_accepts_iff:
  "screenshotSchema valid (JObject props) = Inr v \<longleftrightarrow>
     map_of props ''url'' = Some (JString (url v)) \<and> valid (url v) \<and>
     (map_of props ''fullSize'' = None \<and> fullSize v = False \<or>
      map_of props ''fullSize'' = Some (JBool (fullSize v))) \<and>
     (map_of props ''useProxy'' = None \<and> useProxy v = False \<or>
      map_of props ''useProxy'' = Some (JBool (useProxy v))) \<and>
     (map_of props ''noAds'' = None \<and> noAds v = False \<or>
      map_of props ''noAds'' = Some (JBool (noAds v))) \<and>
     map_of props ''width'' = Some (JNumber (width v)) \<and> 100 \<le> width v \<and> width v \<le> 3840 \<and>
     map_of props ''height'' = Some (JNumber (height v)) \<and> 100 \<le> height v \<and> height v \<le> 2160 \<and>
     map_of props ''zoom'' = Some (JNumber (zoom v)) \<and> 10 \<le> zoom v \<and> zoom v \<le> 200 \<and>
     (map_of props ''format'' = None \<and> format v = PNG \<or>
      map_of props ''format'' = Some (JString (format_name (format v)))) \<and>
     (map_of props ''quality'' = None \<and> quality v = 80 \<or>
      map_of props ''quality'' = Some (JNumber (quality v)) \<and> 0 \<le> quality v \<and> quality v \<le> 100) \<and>
     (map_of props ''delay'' = None \<and> delay v = 0 \<or>
      map_of props ''delay'' = Some (JNumber (delay v)) \<and> 0 \<le> delay v \<and> delay v \<le> 10000) \<and>
     (map_of props ''css'' = None \<and> css v = None \<or>
      (\<exists>c. map_of props ''css'' = Some (JString c) \<and> css v = Some c))"
  by (simp add: screenshotSchema_Inr screenshotFields_Some z_default_boolean_Some
      z_default_number_Some z_default_format_Some z_optional_string_Some z_string_url_Some
      z_number_min_max_Some)

text \<open>
  C6 as stated fails: the width 150.5 lies inside the range and is no integer, and the
  schema accepts it. The handler goes on to launch the browser and hands 150.5 to the
  viewport; where the browser raises no objection, the response is the success response.
\<close>

theorem fractional_width_is_accepted:
  "screenshotSchema (isUrl example_env)
     (request_body (JString ''https://example.com'') (JNumber (301 / 2)) 100 ''png'' []) =
     Inr (example_validated\<lparr>width := 301 / 2\<rparr>) \<and>
   calls (POST example_env (Some (request_body (JString ''https://example.com'')
     (JNumber (301 / 2)) 100 ''png'' []))) =
     [Launch True, NewPage, SetViewport (301 / 2) 720 1,
      Goto ''https://example.com'' ''networkidle0'', Screenshot False PNG None, Close] \<and>
   returned (POST example_env (Some (request_body (JString ''https://example.com'')
     (JNumber (301 / 2)) 100 ''png'' []))) \<noteq> failure_response"
  by (simp add: handler_defs schema_defs example_defs run_simps)

text \<open>
  C7. On a valid request, a PDF call is made only for the format \<^verbatim>\<open>pdf\<close>, with page
  format A4 and backgrounds printed; a screenshot call is made only for the other
  formats, with \<^verbatim>\<open>fullPage\<close> equal to \<^verbatim>\<open>fullSize\<close>, the requested type, and the
  requested quality exactly when the format is \<^verbatim>\<open>jpeg\<close> (\<^verbatim>\<open>undefined\<close> otherwise);
  and a run that succeeds has made that call.
\<close>

theorem capture_step_dispatch:
  assumes "screenshotSchema (isUrl e) data = Inr v"
  shows "(\<forall>f b. Pdf f b \<in> set (calls (POST e (Some data))) \<longrightarrow>
            format v = PDF \<and> f = ''A4'' \<and> b = True) \<and>
         (\<forall>p t q. Screenshot p t q \<in> set (calls (POST e (Some data))) \<longrightarrow>
            format v \<noteq> PDF \<and> p = fullSize v \<and> t = format v \<and>
            q = (if format v = JPEG then Some (quality v) else None)) \<and>
         (success (returned (POST e (Some data))) \<longrightarrow>
            (if format v = PDF then Pdf ''A4'' True
             else Screenshot (fullSize v) (format v)
                    (if format v = JPEG then Some (quality v) else None))
              \<in> set (calls (POST e (Some data))))"
proof (intro conjI allI impI)
  fix f b
  assume "Pdf f b \<in> set (calls (POST e (Some data)))"
  then have "Pdf f b \<in> set (snd (capture e v []))"
    by (simp add: calls_POST_valid [OF assms])
  from capture_trace [OF this] show "format v = PDF" and "f = ''A4''" and "b = True"
    by simp_all
next
  fix p t q
  assume "Screenshot p t q \<in> set (calls (POST e (Some data)))"
  then have "Screenshot p t q \<in> set (snd (capture e v []))"
    by (simp add: calls_POST_valid [OF assms])
  from capture_trace [OF this]
  show "format v \<noteq> PDF" and "p = fullSize v" and "t = format v"
    and "q = (if format v = JPEG then Some (quality v) else None)"
    by simp_all
next
  assume "success (returned (POST e (Some data)))"
  with success_POST_valid [OF assms] obtain uri where "fst (capture e v []) = Inr uri"
    by blast
  from capture_success(1) [OF this]
  show "(if format v = PDF then Pdf ''A4'' True
         else Screenshot (fullSize v) (format v)
                (if format v = JPEG then Some (quality v) else None))
          \<in> set (calls (POST e (Some data)))"
    by (simp add: calls_POST_valid [OF assms])
qed

text \<open>A full-page JPEG at quality 55, a PNG for which the quality is dropped, and a PDF.\<close>

theorem capture_step_dispatch_witness:
  "Screenshot True JPEG (Some 55) \<in>
     set (calls (POST example_env (Some (request_body (JString ''https://example.com'')
       (JNumber 1280) 100 ''jpeg'' [(''quality'', JNumber 55), (''fullSize'', JBool True)])))) \<and>
   Screenshot False PNG None \<in>
     set (calls (POST example_env (Some (request_body (JString ''https://example.com'')
       (JNumber 1280) 100 ''png'' [(''quality'', JNumber 55)])))) \<and>
   Pdf ''A4'' True \<in>
     set (calls (POST example_env (Some (request_body (JString ''https://example.com'')
       (JNumber 1280) 100 ''pdf'' [(''quality'', JNumber 55), (''fullSize'', JBool True)]))))"
proof -
  have jpeg: "screenshotSchema (isUrl example_env)
      (request_body (JString ''https://example.com'') (JNumber 1280) 100 ''jpeg''
        [(''quality'', JNumber 55), (''fullSize'', JBool True)]) =
      Inr (example_validated\<lparr>format := JPEG, quality := 55, fullSize := True\<rparr>)"
    by (simp add: schema_defs example_defs)
  have png: "screenshotSchema (isUrl example_env)
      (request_body (JString ''https://example.com'') (JNumber 1280) 100 ''png''
        [(''quality'', JNumber 55)]) =
      Inr (example_validated\<lparr>quality := 55\<rparr>)"
    by (simp add: schema_defs example_defs)
  have pdf: "screenshotSchema (isUrl example_env)
      (request_body (JString ''https://example.com'') (JNumber 1280) 100 ''pdf''
        [(''quality'', JNumber 55), (''fullSize'', JBool True)]) =
      Inr (example_validated\<lparr>format := PDF, quality := 55, fullSize := True\<rparr>)"
    by (simp add: schema_defs example_defs)
  have ok: "success (returned (POST example_env (Some (request_body (JString ''https://example.com'')
       (JNumber 1280) 100 f rest))))"
    if "f = ''png'' \<or> f = ''jpeg'' \<or> f = ''pdf''"
      and "rest = [(''quality'', JNumber 55)] \<or> rest = [(''quality'', JNumber 55), (''fullSize'', JBool True)]"
    for f rest
    using that by (auto simp: handler_defs schema_defs example_defs run_simps)
  show ?thesis
    using capture_step_dispatch [OF jpeg] capture_step_dispatch [OF png]
      capture_step_dispatch [OF pdf] ok
    by (simp add: example_validated_def)
qed

text \<open>
  C8. On a valid request, the viewport is set to the requested width and height with
  the device scale factor \<^verbatim>\<open>zoom / 100\<close>, the quotient as JavaScript computes it, and to
  nothing else; the call is made as soon as the launch and the opening of the page have
  not thrown. That quotient is the double nearest to the exact one: the two differ by
  at most \<open>1 / 2 ^ 53\<close> for a zoom the schema accepts, and are equal where the exact
  quotient is a double (\<open>to_double_double\<close>).
\<close>

theorem viewport_from_request:
  assumes "screenshotSchema (isUrl e) data = Inr v"
  shows "(\<forall>w h s. SetViewport w h s \<in> set (calls (POST e (Some data))) \<longrightarrow>
            w = width v \<and> h = height v \<and> s = js_divide (zoom v) 100) \<and>
         (\<not> throws e (Launch True) \<and> \<not> throws e NewPage \<longrightarrow>
            SetViewport (width v) (height v) (js_divide (zoom v) 100)
              \<in> set (calls (POST e (Some data)))) \<and>
         \<bar>js_divide (zoom v) 100 - zoom v / 100\<bar> \<le> 1 / 2 ^ 53"
proof (intro conjI allI impI)
  fix w h s
  assume "SetViewport w h s \<in> set (calls (POST e (Some data)))"
  then have "SetViewport w h s \<in> set (snd (capture e v []))"
    by (simp add: calls_POST_valid [OF assms])
  from capture_trace [OF this]
  show "w = width v" and "h = height v" and "s = js_divide (zoom v) 100"
    by simp_all
next
  assume "\<not> throws e (Launch True) \<and> \<not> throws e NewPage"
  then show "SetViewport (width v) (height v) (js_divide (zoom v) 100)
      \<in> set (calls (POST e (Some data)))"
    by (simp add: calls_POST_valid [OF assms] capture_viewport_reached)
next
  from screenshotSchema_zoom_range [OF assms]
  show "\<bar>js_divide (zoom v) 100 - zoom v / 100\<bar> \<le> 1 / 2 ^ 53"
    by (rule js_divide_accuracy)
qed

text \<open>Zoom 150 gives the scale factor 3/2, the exact quotient. Zoom 33 gives the double
  nearest to 33/100, which is not 33/100.\<close>

theorem viewport_from_request_witness:
  "SetViewport 1280 720 (3 / 2) \<in>
     set (calls (POST example_env (Some (request_body (JString ''https://example.com'')
       (JNumber 1280) 150 ''png'' [])))) \<and>
   SetViewport 1280 720 (5944751508129055 / 18014398509481984) \<in>
     set (calls (POST example_env (Some (request_body (JString ''https://example.com'')
       (JNumber 1280) 33 ''png'' [])))) \<and>
   SetViewport 1280 720 (33 / 100) \<notin>
     set (calls (POST example_env (Some (request_body (JString ''https://example.com'')
       (JNumber 1280) 33 ''png'' []))))"
proof -
  let ?exact = "request_body (JString ''https://example.com'') (JNumber 1280) 150 ''png'' []"
  let ?rounded = "request_body (JString ''https://example.com'') (JNumber 1280) 33 ''png'' []"
  have exact: "screenshotSchema (isUrl example_env) ?exact = Inr (example_validated\<lparr>zoom := 150\<rparr>)"
    by (simp add: schema_defs example_defs)
  have rounded: "screenshotSchema (isUrl example_env) ?rounded = Inr (example_validated\<lparr>zoom := 33\<rparr>)"
    by (simp add: schema_defs example_defs)
  have quiet: "\<not> throws example_env (Launch True) \<and> \<not> throws example_env NewPage"
    by (simp add: example_env_def)
  from viewport_from_request [OF exact] quiet
  have "SetViewport (width (example_validated\<lparr>zoom := 150\<rparr>)) (height (example_validated\<lparr>zoom := 150\<rparr>))
      (js_divide (zoom (example_validated\<lparr>zoom := 150\<rparr>)) 100) \<in> set (calls (POST example_env (Some ?exact)))"
    by blast
  then have 1: "SetViewport 1280 720 (3 / 2) \<in> set (calls (POST example_env (Some ?exact)))"
    by (simp add: example_validated_def js_divide_150)
  from viewport_from_request [OF rounded] quiet
  have "SetViewport (width (example_validated\<lparr>zoom := 33\<rparr>)) (height (example_validated\<lparr>zoom := 33\<rparr>))
      (js_divide (zoom (example_validated\<lparr>zoom := 33\<rparr>)) 100) \<in> set (calls (POST example_env (Some ?rounded)))"
    by blast
  then have 2: "SetViewport 1280 720 (5944751508129055 / 18014398509481984)
      \<in> set (calls (POST example_env (Some ?rounded)))"
    by (simp add: example_validated_def js_divide_33)
  have 3: "SetViewport 1280 720 (33 / 100) \<notin> set (calls (POST example_env (Some ?rounded)))"
  proof
    assume "SetViewport 1280 720 (33 / 100) \<in> set (calls (POST example_env (Some ?rounded)))"
    with viewport_from_request [OF rounded]
    have "33 / 100 = js_divide (zoom (example_validated\<lparr>zoom := 33\<rparr>)) 100"
      by blast
    then show False
      by (simp add: example_validated_def js_divide_33)
  qed
  from 1 2 3 show ?thesis by simp
qed

text \<open>
  C9. Two bodies that agree on every property but \<^verbatim>\<open>useProxy\<close>, each with
  \<^verbatim>\<open>useProxy\<close> absent or a boolean, give the same run: the same response, the same
  calls in the same order, the same log.
\<close>

theorem useProxy_is_inert:
  assumes "\<forall>k. k \<noteq> ''useProxy'' \<longrightarrow> map_of props1 k = map_of props2 k"
    and "map_of props1 ''useProxy'' = None \<or> map_of props1 ''useProxy'' = Some (JBool b1)"
    and "map_of props2 ''useProxy'' = None \<or> map_of props2 ''useProxy'' = Some (JBool b2)"
  shows "POST e (Some (JObject props1)) = POST e (Some (JObject props2))"
proof -
  from assms(2) obtain c1 where c1: "z_default z_boolean False (map_of props1 ''useProxy'') = Some c1"
    by (auto simp: z_default_boolean_Some)
  from assms(3) obtain c2 where c2: "z_default z_boolean False (map_of props2 ''useProxy'') = Some c2"
    by (auto simp: z_default_boolean_Some)
  note fields = screenshotFields_useProxy [OF assms(1) c1 c2, of "isUrl e"]
  show ?thesis
  proof (cases "screenshotFields (isUrl e) (map_of props2)")
    case None
    with fields have "screenshotSchema (isUrl e) (JObject props1) = Inl ZodError"
      and "screenshotSchema (isUrl e) (JObject props2) = Inl ZodError"
      by (simp_all add: screenshotSchema_def)
    then show ?thesis by (rule POST_both_invalid)
  next
    case (Some v)
    with fields have "screenshotSchema (isUrl e) (JObject props1) = Inr (v\<lparr>useProxy := c1\<rparr>)"
      and "screenshotSchema (isUrl e) (JObject props2) = Inr v"
      by (simp_all add: screenshotSchema_def)
    then show ?thesis by (rule POST_same_capture) (rule capture_useProxy)
  qed
qed

text \<open>\<^verbatim>\<open>useProxy\<close> true against false in a run that succeeds, and true against
  absent in a run whose navigation fails.\<close>

theorem useProxy_is_inert_witness:
  "POST example_env (Some (request_body (JString ''https://example.com'') (JNumber 1280) 100
       ''png'' [(''useProxy'', JBool True)])) =
   POST example_env (Some (request_body (JString ''https://example.com'') (JNumber 1280) 100
       ''png'' [(''useProxy'', JBool False)])) \<and>
   POST goto_fails_env (Some (request_body (JString ''https://example.com'') (JNumber 1280) 100
       ''png'' [(''useProxy'', JBool True)])) =
   POST goto_fails_env (Some (request_body (JString ''https://example.com'') (JNumber 1280) 100
       ''png'' []))"
proof -
  let ?base = "[(''url'', JString ''https://example.com''), (''width'', JNumber 1280),
    (''height'', JNumber 720), (''zoom'', JNumber 100), (''format'', JString ''png'')]"
  have yes: "map_of (?base @ [(''useProxy'', JBool True)]) ''useProxy'' = None \<or>
      map_of (?base @ [(''useProxy'', JBool True)]) ''useProxy'' = Some (JBool True)"
    by simp
  have no: "map_of (?base @ [(''useProxy'', JBool False)]) ''useProxy'' = None \<or>
      map_of (?base @ [(''useProxy'', JBool False)]) ''useProxy'' = Some (JBool False)"
    by simp
  have absent: "map_of (?base @ []) ''useProxy'' = None \<or>
      map_of (?base @ []) ''useProxy'' = Some (JBool False)"
    by simp
  have same: "\<forall>k. k \<noteq> ''useProxy'' \<longrightarrow>
      map_of (?base @ [(''useProxy'', JBool True)]) k =
      map_of (?base @ [(''useProxy'', JBool False)]) k"
    by auto
  have same': "\<forall>k. k \<noteq> ''useProxy'' \<longrightarrow>
      map_of (?base @ [(''useProxy'', JBool True)]) k = map_of (?base @ []) k"
    by auto
  from useProxy_is_inert [OF same yes no, of example_env]
    useProxy_is_inert [OF same' yes absent, of goto_fails_env]
  show ?thesis
    unfolding request_body_def by blast
qed

text \<open>
  C10. A body whose \<^verbatim>\<open>css\<close> is the empty string gives the same run as the body
  without \<^verbatim>\<open>css\<close> that agrees with it elsewhere, and no run on it evaluates a style
  injection.
\<close>

theorem empty_css_is_no_css:
  assumes "map_of props ''css'' = Some (JString '''')"
    and "map_of props' ''css'' = None"
    and "\<forall>k. k \<noteq> ''css'' \<longrightarrow> map_of props k = map_of props' k"
  shows "POST e (Some (JObject props)) = POST e (Some (JObject props')) \<and>
         (\<forall>c. Evaluate c \<notin> set (calls (POST e (Some (JObject props)))))"
proof -
  note fields = screenshotFields_css [OF assms(3) assms(1) assms(2), of "isUrl e"]
  show ?thesis
  proof (cases "screenshotFields (isUrl e) (map_of props')")
    case None
    with fields have 1: "screenshotSchema (isUrl e) (JObject props) = Inl ZodError"
      and 2: "screenshotSchema (isUrl e) (JObject props') = Inl ZodError"
      by (simp_all add: screenshotSchema_def)
    from 1 2 have "POST e (Some (JObject props)) = POST e (Some (JObject props'))"
      by (rule POST_both_invalid)
    moreover from 1 have "calls (POST e (Some (JObject props))) = []"
      by (simp add: POST_invalid)
    ultimately show ?thesis by simp
  next
    case (Some v)
    with fields have 1: "screenshotSchema (isUrl e) (JObject props) = Inr (v\<lparr>css := Some ''''\<rparr>)"
      and 2: "screenshotSchema (isUrl e) (JObject props') = Inr v"
      by (simp_all add: screenshotSchema_def)
    from Some assms(2) have "css v = None"
      by (simp add: screenshotFields_Some z_optional_string_Some)
    then have "v\<lparr>css := None\<rparr> = v"
      by (cases v) simp
    then have "capture e (v\<lparr>css := Some ''''\<rparr>) = capture e v"
      using capture_empty_css [of "v\<lparr>css := Some ''''\<rparr>" e] by simp
    with 1 2 have "POST e (Some (JObject props)) = POST e (Some (JObject props'))"
      by (rule POST_same_capture)
    moreover have "Evaluate c \<notin> set (calls (POST e (Some (JObject props))))" for c
    proof
      assume "Evaluate c \<in> set (calls (POST e (Some (JObject props))))"
      then have "Evaluate c \<in> set (snd (capture e (v\<lparr>css := Some ''''\<rparr>) []))"
        by (simp add: calls_POST_valid [OF 1])
      from capture_trace [OF this] show False
        by (simp add: truthy_def)
    qed
    ultimately show ?thesis by simp
  qed
qed

text \<open>The example request with \<^verbatim>\<open>css: ""\<close> and without.\<close>

theorem empty_css_is_no_css_witness:
  "POST example_env (Some (request_body (JString ''https://example.com'') (JNumber 1280) 100
       ''png'' [(''css'', JString '''')])) =
   POST example_env (Some (request_body (JString ''https://example.com'') (JNumber 1280) 100
       ''png'' [])) \<and>
   Evaluate '''' \<notin> set (calls (POST example_env (Some (request_body
       (JString ''https://example.com'') (JNumber 1280) 100 ''png'' [(''css'', JString '''')]))))"
proof -
  let ?base = "[(''url'', JString ''https://example.com''), (''width'', JNumber 1280),
    (''height'', JNumber 720), (''zoom'', JNumber 100), (''format'', JString ''png'')]"
  have present: "map_of (?base @ [(''css'', JString '''')]) ''css'' = Some (JString '''')"
    by simp
  have absent: "map_of (?base @ []) ''css'' = None"
    by simp
  have same: "\<forall>k. k \<noteq> ''css'' \<longrightarrow>
      map_of (?base @ [(''css'', JString '''')]) k = map_of (?base @ []) k"
    by auto
  from empty_css_is_no_css [OF present absent same, of example_env]
  show ?thesis
    unfolding request_body_def by blast
qed

end
